theory Spec2Isabelle
  imports
    Complex_Main
    "HOL-Library.Char_ord"
    "HOL-Library.List_Lexorder"
    "HOL-Library.Option_ord"
    "HOL-Library.Product_Lexorder"
begin

section \<open>Data model\<close>

text \<open>
  The program works on pandas data frames. A frame is modelled by its column labels and
  its rows; a row holds one typed cell for each column the program names. A cell of a
  column the frame lacks is never read: every column access first looks the label up and
  fails with \<open>KeyError\<close> when it is missing, as \<open>df['label']\<close> does.

  \<^item> A date (\<open>datetime\<close>, \<open>Timestamp\<close>) is its proleptic Gregorian ordinal, the day
    number \<open>datetime.toordinal\<close> returns; all dates of the program are midnights.
    The column \<open>Date Filed\<close> is held as parsed by \<open>pd.to_datetime\<close>.
  \<^item> A nullable cell (JSON \<open>null\<close>, \<open>NaN\<close>) is an \<open>option\<close>, \<open>None\<close> the null.
  \<^item> Percentages are floats in the source; only their order is used, so they are
    modelled by rationals. Values, share counts and principals are integers.
  \<^item> The field \<open>Value\<close> is the cell of the column labelled \<open>Value ($000)\<close> before
    the rename of line 90 and \<open>Value\<close> after it; a frame has at most one of the two
    labels, and no label twice.
\<close>

type_synonym date = int

datatype error = KeyError string | IndexError | ValueError

record row =
  Quarter :: string
  Date_Filed :: date
  Ticker :: "string option"
  Company_Name :: string
  Class :: string
  CUSIP :: string
  Value :: "int option"
  Percentage :: "rat option"
  Shares :: "int option"
  Principal :: "int option"
  Option_Type :: "string option"
  quarter_end :: date
  ticker_adjusted :: "string option"

record frame =
  columns :: "string list"
  rows :: "row list"

section \<open>Python and pandas primitives\<close>

text \<open>\<open>Series.unique\<close>: the distinct values in order of first appearance.\<close>

definition unique :: "'a list \<Rightarrow> 'a list" where
  "unique xs = rev (remdups (rev xs))"

text \<open>
  \<open>sort_values\<close> is modelled by the stable insertion sort \<open>sort_key\<close>. Sorting by the
  two keys of line 157 is stable in pandas; sorting by one key (lines 110, 184, 187) uses
  numpy's default sort, whose order among equal keys is not fixed. The model keeps equal
  keys in the order of the input.
\<close>

definition sort_values :: "(row \<Rightarrow> 'k::linorder) \<Rightarrow> frame \<Rightarrow> frame" where
  "sort_values key df = df\<lparr>rows := sort_key key (rows df)\<rparr>"

text \<open>\<open>df[col] = ...\<close> appends the label when the frame does not have it yet.\<close>

definition set_column :: "string \<Rightarrow> string list \<Rightarrow> string list" where
  "set_column c cs = (if c \<in> set cs then cs else cs @ [c])"

text \<open>\<open>str.split(sep)\<close> with a one-character separator.\<close>

fun str_split :: "char \<Rightarrow> string \<Rightarrow> string list" where
  "str_split sep [] = [[]]"
| "str_split sep (c # cs) =
     (if c = sep then [] # str_split sep cs
      else (case str_split sep cs of
              [] \<Rightarrow> [[c]]
            | p # ps \<Rightarrow> (c # p) # ps))"

text \<open>
  \<open>int(s)\<close> in base ten on an ASCII string: surrounding whitespace is dropped, one sign
  may lead, and the digits may be separated by single underscores.
\<close>

definition is_space :: "char \<Rightarrow> bool" where
  "is_space c = (let n = (of_char c :: nat) in (9 \<le> n \<and> n \<le> 13) \<or> (28 \<le> n \<and> n \<le> 32))"

definition strip :: "string \<Rightarrow> string" where
  "strip s = rev (dropWhile is_space (rev (dropWhile is_space s)))"

definition digit_of :: "char \<Rightarrow> nat option" where
  "digit_of c = (let n = (of_char c :: nat) in if 48 \<le> n \<and> n \<le> 57 then Some (n - 48) else None)"

fun parse_digits :: "nat \<Rightarrow> string \<Rightarrow> nat option" where
  "parse_digits acc [] = Some acc"
| "parse_digits acc (c # cs) =
     (if c = CHR ''_'' then
        (case cs of
           [] \<Rightarrow> None
         | d # ds \<Rightarrow>
             (case digit_of d of
                None \<Rightarrow> None
              | Some v \<Rightarrow> parse_digits (10 * acc + v) ds))
      else
        (case digit_of c of
           None \<Rightarrow> None
         | Some v \<Rightarrow> parse_digits (10 * acc + v) cs))"

definition py_int :: "string \<Rightarrow> error + int" where
  "py_int s =
     (let t = strip s;
          neg = (case t of [] \<Rightarrow> False | c # _ \<Rightarrow> c = CHR ''-'');
          u = (case t of [] \<Rightarrow> [] | c # cs \<Rightarrow> if c = CHR ''-'' \<or> c = CHR ''+'' then cs else t)
      in case u of
           [] \<Rightarrow> Inl ValueError
         | d # ds \<Rightarrow>
             (case digit_of d of
                None \<Rightarrow> Inl ValueError
              | Some v \<Rightarrow>
                  (case parse_digits v ds of
                     None \<Rightarrow> Inl ValueError
                   | Some n \<Rightarrow> Inr (if neg then - int n else int n))))"

text \<open>\<open>datetime(year, month, day)\<close> as the ordinal of the day.\<close>

definition is_leap :: "int \<Rightarrow> bool" where
  "is_leap y = (y mod 4 = 0 \<and> (y mod 100 \<noteq> 0 \<or> y mod 400 = 0))"

definition days_before_year :: "int \<Rightarrow> int" where
  "days_before_year y = (y - 1) * 365 + (y - 1) div 4 - (y - 1) div 100 + (y - 1) div 400"

definition days_before_month :: "int \<Rightarrow> int \<Rightarrow> int" where
  "days_before_month y m =
     [0, 31, 59, 90, 120, 151, 181, 212, 243, 273, 304, 334] ! nat (m - 1)
       + (if 2 < m \<and> is_leap y then 1 else 0)"

definition datetime :: "int \<Rightarrow> int \<Rightarrow> int \<Rightarrow> date" where
  "datetime y m d = days_before_year y + days_before_month y m + d"

section \<open>The normalizer: \<open>preprocess_filings_df\<close>\<close>

text \<open>
  Lines 96 to 104. The year is read first (\<open>IndexError\<close> without a second field,
  \<open>ValueError\<close> when it is no integer); the dictionary of the four quarter ends is built
  next, and \<open>datetime\<close> refuses a year outside 1 to 9999; the lookup of the quarter
  name comes last.
\<close>

definition get_quarter_end :: "string \<Rightarrow> error + date" where
  "get_quarter_end quarter_str =
     (case str_split CHR '' '' quarter_str of
        quarter # y # _ \<Rightarrow>
          (case py_int y of
             Inl e \<Rightarrow> Inl e
           | Inr year \<Rightarrow>
               if year < 1 \<or> 9999 < year then Inl ValueError
               else if quarter = ''Q1'' then Inr (datetime year 3 31)
               else if quarter = ''Q2'' then Inr (datetime year 6 30)
               else if quarter = ''Q3'' then Inr (datetime year 9 30)
               else if quarter = ''Q4'' then Inr (datetime year 12 31)
               else Inl (KeyError quarter))
      | _ \<Rightarrow> Inl IndexError)"

text \<open>
  Lines 86 and 89 assign into the frame the caller passed: \<open>assign_in_place\<close> is that
  frame after the two assignments, with every value multiplied by 1000.
\<close>

definition scale_value :: "row \<Rightarrow> row" where
  "scale_value r = r\<lparr>Value := map_option (\<lambda>v. 1000 * v) (Value r)\<rparr>"

definition assign_in_place :: "frame \<Rightarrow> error + frame" where
  "assign_in_place df =
     (if ''Date Filed'' \<notin> set (columns df) then Inl (KeyError ''Date Filed'')
      else if ''Value ($000)'' \<notin> set (columns df) then Inl (KeyError ''Value ($000)'')
      else Inr (df\<lparr>rows := map scale_value (rows df)\<rparr>))"

text \<open>Line 90: the rename returns a new frame.\<close>

definition rename_value :: "frame \<Rightarrow> frame" where
  "rename_value df =
     df\<lparr>columns := map (\<lambda>c. if c = ''Value ($000)'' then ''Value'' else c) (columns df)\<rparr>"

text \<open>Line 93.\<close>

definition dropna_Percentage :: "frame \<Rightarrow> error + frame" where
  "dropna_Percentage df =
     (if ''Percentage'' \<notin> set (columns df) then Inl (KeyError ''Percentage'')
      else Inr (df\<lparr>rows := filter (\<lambda>r. Percentage r \<noteq> None) (rows df)\<rparr>))"

text \<open>Lines 106 and 107: \<open>apply\<close> calls \<open>get_quarter_end\<close> row by row and stops at the
  first label that fails.\<close>

fun apply_get_quarter_end :: "row list \<Rightarrow> error + row list" where
  "apply_get_quarter_end [] = Inr []"
| "apply_get_quarter_end (r # rs) =
     (case get_quarter_end (Quarter r) of
        Inl e \<Rightarrow> Inl e
      | Inr q \<Rightarrow>
          (case apply_get_quarter_end rs of
             Inl e \<Rightarrow> Inl e
           | Inr rs' \<Rightarrow> Inr (r\<lparr>quarter_end := q\<rparr> # rs')))"

definition add_quarter_end :: "frame \<Rightarrow> error + frame" where
  "add_quarter_end df =
     (if ''Quarter'' \<notin> set (columns df) then Inl (KeyError ''Quarter'')
      else (case apply_get_quarter_end (rows df) of
              Inl e \<Rightarrow> Inl e
            | Inr rs \<Rightarrow> Inr \<lparr>columns = set_column ''quarter_end'' (columns df), rows = rs\<rparr>))"

text \<open>
  Lines 114 to 116. Adding a suffix to a null ticker leaves the null, and a row is a put
  or a call, never both, so at most one suffix is added.
\<close>

definition adjusted :: "row \<Rightarrow> string option" where
  "adjusted r =
     (case Ticker r of
        None \<Rightarrow> None
      | Some t \<Rightarrow>
          Some (if Option_Type r = Some ''put'' then t @ '' (put)''
                else if Option_Type r = Some ''call'' then t @ '' (call)''
                else t))"

definition add_ticker_adjusted :: "frame \<Rightarrow> error + frame" where
  "add_ticker_adjusted df =
     (if ''Ticker'' \<notin> set (columns df) then Inl (KeyError ''Ticker'')
      else if ''Option Type'' \<notin> set (columns df) then Inl (KeyError ''Option Type'')
      else Inr \<lparr>columns = set_column ''ticker_adjusted'' (columns df),
                rows = map (\<lambda>r. r\<lparr>ticker_adjusted := adjusted r\<rparr>) (rows df)\<rparr>)"

text \<open>Line 119.\<close>

definition all_quarters :: "frame \<Rightarrow> date list" where
  "all_quarters df = sort (unique (map quarter_end (rows df)))"

text \<open>
  Lines 138 to 149: the dictionary of a filled quarter. Its keys are the twelve labels
  written there; \<open>ticker_adjusted\<close> is not among them, so that cell is null in the table.
  The ticker stored is the loop variable, the adjusted ticker.
\<close>

definition zero_keys :: "string list" where
  "zero_keys = [''Quarter'', ''Date Filed'', ''Ticker'', ''Company Name'', ''Class'', ''CUSIP'',
     ''Value'', ''Percentage'', ''Shares'', ''Principal'', ''Option Type'', ''quarter_end'']"

definition zero_row :: "frame \<Rightarrow> row list \<Rightarrow> string \<Rightarrow> date \<Rightarrow> error + row" where
  "zero_row df ticker_df ticker quarter =
     (case find (\<lambda>r. quarter_end r = quarter) (rows df) of
        None \<Rightarrow> Inl IndexError
      | Some rq \<Rightarrow>
          (if ''Company Name'' \<notin> set (columns df) then Inl (KeyError ''Company Name'')
           else (case ticker_df of
              [] \<Rightarrow> Inl IndexError
            | r0 # _ \<Rightarrow>
                if ''Class'' \<notin> set (columns df) then Inl (KeyError ''Class'')
                else if ''CUSIP'' \<notin> set (columns df) then Inl (KeyError ''CUSIP'')
                else if ''Principal'' \<notin> set (columns df) then Inl (KeyError ''Principal'')
                else Inr \<lparr>Quarter = Quarter rq, Date_Filed = Date_Filed rq,
                          Ticker = Some ticker, Company_Name = Company_Name r0,
                          Class = Class r0, CUSIP = CUSIP r0, Value = Some 0,
                          Percentage = Some 0, Shares = Some 0, Principal = Principal r0,
                          Option_Type = Option_Type r0, quarter_end = quarter,
                          ticker_adjusted = None\<rparr>)))"

text \<open>
  Lines 133 to 152, the loop over the quarters for one ticker. Each dictionary appended
  to \<open>updated_rows\<close> is kept with its keys: an existing row has the labels of the frame.
\<close>

fun fill_quarters ::
  "frame \<Rightarrow> row list \<Rightarrow> string \<Rightarrow> date \<Rightarrow> date \<Rightarrow> date list \<Rightarrow> error + (string list \<times> row) list"
where
  "fill_quarters df ticker_df ticker min_date max_date [] = Inr []"
| "fill_quarters df ticker_df ticker min_date max_date (quarter # qs) =
     (if quarter < min_date \<or> max_date < quarter then
        fill_quarters df ticker_df ticker min_date max_date qs
      else
        (case (case find (\<lambda>r. quarter_end r = quarter) ticker_df of
                 None \<Rightarrow> map_sum id (Pair zero_keys) (zero_row df ticker_df ticker quarter)
               | Some r \<Rightarrow> Inr (columns df, r)) of
           Inl e \<Rightarrow> Inl e
         | Inr d \<Rightarrow>
             (case fill_quarters df ticker_df ticker min_date max_date qs of
                Inl e \<Rightarrow> Inl e
              | Inr ds \<Rightarrow> Inr (d # ds))))"

text \<open>
  Lines 123 to 152, the loop over the tickers. A comparison with a null ticker holds for
  no row, so \<open>ticker_df\<close> is empty for it and line 127 skips it.
\<close>

definition ticker_df :: "frame \<Rightarrow> string \<Rightarrow> row list" where
  "ticker_df df ticker = filter (\<lambda>r. ticker_adjusted r = Some ticker) (rows df)"

definition fill_ticker :: "frame \<Rightarrow> date list \<Rightarrow> string \<Rightarrow> error + (string list \<times> row) list" where
  "fill_ticker df qs ticker =
     fill_quarters df (ticker_df df ticker) ticker
       (Min (set (map quarter_end (ticker_df df ticker))))
       (Max (set (map quarter_end (ticker_df df ticker)))) qs"

fun fill_tickers ::
  "frame \<Rightarrow> date list \<Rightarrow> string option list \<Rightarrow> error + (string list \<times> row) list"
where
  "fill_tickers df qs [] = Inr []"
| "fill_tickers df qs (None # ts) = fill_tickers df qs ts"
| "fill_tickers df qs (Some ticker # ts) =
     (if ticker_df df ticker = [] then fill_tickers df qs ts
      else
        (case fill_ticker df qs ticker of
           Inl e \<Rightarrow> Inl e
         | Inr ds \<Rightarrow>
             (case fill_tickers df qs ts of
                Inl e \<Rightarrow> Inl e
              | Inr ds' \<Rightarrow> Inr (ds @ ds'))))"

text \<open>
  Line 154: the columns of the new frame are the keys of the dictionaries, in order of
  first appearance; no dictionary, no column. A cell under a label its dictionary lacks
  is null. A filled row lacks the label \<open>ticker_adjusted\<close>, and \<open>zero_row\<close> has that
  cell null already. An existing row lacks a label of \<open>zero_keys\<close> only when the frame
  does, and among those the loops can run without \<open>Shares\<close> alone.
\<close>

definition cells :: "string list \<times> row \<Rightarrow> row" where
  "cells d = (if ''Shares'' \<in> set (fst d) then snd d else (snd d)\<lparr>Shares := None\<rparr>)"

definition DataFrame :: "(string list \<times> row) list \<Rightarrow> frame" where
  "DataFrame ds = \<lparr>columns = unique (concat (map fst ds)), rows = map cells ds\<rparr>"

text \<open>Line 157. Null tickers sort last.\<close>

definition by_Ticker_quarter_end :: "row \<Rightarrow> (nat \<times> string) \<times> date" where
  "by_Ticker_quarter_end r =
     ((case Ticker r of None \<Rightarrow> (1, []) | Some t \<Rightarrow> (0, t)), quarter_end r)"

definition sort_rows :: "frame \<Rightarrow> error + frame" where
  "sort_rows df =
     (if ''Ticker'' \<notin> set (columns df) then Inl (KeyError ''Ticker'')
      else if ''quarter_end'' \<notin> set (columns df) then Inl (KeyError ''quarter_end'')
      else Inr (sort_values by_Ticker_quarter_end df))"

text \<open>Lines 90 to 116: the frame the loops read.\<close>

definition prepare :: "frame \<Rightarrow> error + frame" where
  "prepare df1 =
     (case dropna_Percentage (rename_value df1) of
        Inl e \<Rightarrow> Inl e
      | Inr df2 \<Rightarrow>
          (case add_quarter_end df2 of
             Inl e \<Rightarrow> Inl e
           | Inr df3 \<Rightarrow> add_ticker_adjusted (sort_values quarter_end df3)))"

text \<open>Lines 118 to 159.\<close>

definition fill_gaps :: "frame \<Rightarrow> error + frame" where
  "fill_gaps df =
     (case fill_tickers df (all_quarters df) (unique (map ticker_adjusted (rows df))) of
        Inl e \<Rightarrow> Inl e
      | Inr updated_rows \<Rightarrow> sort_rows (DataFrame updated_rows))"

text \<open>The value \<open>preprocess_filings_df\<close> returns, and the frame of the caller after the
  call.\<close>

definition preprocess_filings_df :: "frame \<Rightarrow> error + frame" where
  "preprocess_filings_df df =
     (case assign_in_place df of
        Inl e \<Rightarrow> Inl e
      | Inr df1 \<Rightarrow>
          (case prepare df1 of
             Inl e \<Rightarrow> Inl e
           | Inr df4 \<Rightarrow> fill_gaps df4))"


text \<open>Line 61: the columns of the frame \<open>scrape_filings\<close> builds.\<close>

definition scrape_columns :: "string list" where
  "scrape_columns = [''Quarter'', ''Date Filed'', ''Ticker'', ''Company Name'', ''Class'',
     ''CUSIP'', ''Value ($000)'', ''Percentage'', ''Shares'', ''Principal'', ''Option Type'']"

section \<open>The window filter: \<open>filter_date_range\<close>\<close>

text \<open>
  Lines 163 to 174. The minimum and maximum of an empty column are \<open>NaT\<close>, and so is every
  date computed from them: the window is \<open>None\<close> then, and no comparison with it holds.
  In the last branch the two dates come from the date pickers of the page; \<open>picked\<close> is
  the pair the user chose. The function binds its local name \<open>df\<close> to a new frame and
  never assigns into the frame it was given.
\<close>

definition window :: "date list \<Rightarrow> string \<Rightarrow> date \<times> date \<Rightarrow> (date \<times> date) option" where
  "window qs date_range picked =
     (if date_range = ''1Y'' then
        (if qs = [] then None else Some (max (Min (set qs)) (Max (set qs) - 365), Max (set qs)))
      else if date_range = ''3Y'' then
        (if qs = [] then None else Some (max (Min (set qs)) (Max (set qs) - 3 * 365), Max (set qs)))
      else if date_range = ''5Y'' then
        (if qs = [] then None else Some (max (Min (set qs)) (Max (set qs) - 5 * 365), Max (set qs)))
      else if date_range = ''Max'' then
        (if qs = [] then None else Some (Min (set qs), Max (set qs)))
      else Some picked)"

definition in_window :: "(date \<times> date) option \<Rightarrow> date \<Rightarrow> bool" where
  "in_window w q = (case w of None \<Rightarrow> False | Some (start_date, end_date) \<Rightarrow> start_date \<le> q \<and> q \<le> end_date)"

definition filter_date_range :: "frame \<Rightarrow> string \<Rightarrow> date \<times> date \<Rightarrow> error + frame" where
  "filter_date_range df date_range picked =
     (if ''quarter_end'' \<notin> set (columns df) then Inl (KeyError ''quarter_end'')
      else Inr (df\<lparr>rows :=
        filter (\<lambda>r. in_window (window (map quarter_end (rows df)) date_range picked) (quarter_end r))
          (rows df)\<rparr>))"


section \<open>The top-k selector: \<open>filter_top_k_holdings\<close>\<close>

text \<open>\<open>head(n)\<close>: the first \<open>n\<close> rows, and for a negative \<open>n\<close> all rows but the last
  \<open>-n\<close>.\<close>

definition head :: "int \<Rightarrow> 'a list \<Rightarrow> 'a list" where
  "head n xs = (if 0 \<le> n then take (nat n) xs else take (length xs - nat (- n)) xs)"

text \<open>Line 187: descending by percentage, nulls last.\<close>

definition by_Percentage_descending :: "row \<Rightarrow> nat \<times> rat" where
  "by_Percentage_descending r = (case Percentage r of None \<Rightarrow> (1, 0) | Some p \<Rightarrow> (0, - p))"

text \<open>Lines 185 and 186: the rows at the maximum date; none when the frame is empty.\<close>

definition at_end_date :: "row list \<Rightarrow> row list" where
  "at_end_date rs =
     (if rs = [] then [] else filter (\<lambda>r. quarter_end r = Max (set (map quarter_end rs))) rs)"

text \<open>Line 190.\<close>

definition top_holdings :: "row list \<Rightarrow> int \<Rightarrow> string option list" where
  "top_holdings rs k = unique (map Ticker (head k (sort_key by_Percentage_descending (at_end_date rs))))"

definition filter_top_k_holdings :: "frame \<Rightarrow> int \<Rightarrow> error + frame" where
  "filter_top_k_holdings df_filtered k =
     (if ''quarter_end'' \<notin> set (columns df_filtered) then Inl (KeyError ''quarter_end'')
      else if ''Percentage'' \<notin> set (columns df_filtered) then Inl (KeyError ''Percentage'')
      else if ''Ticker'' \<notin> set (columns df_filtered) then Inl (KeyError ''Ticker'')
      else
        (let sorted_rows = sort_key quarter_end (rows df_filtered)
         in Inr (df_filtered\<lparr>rows :=
              filter (\<lambda>r. Ticker r \<in> set (top_holdings sorted_rows k)) sorted_rows\<rparr>)))"


section \<open>The projector: \<open>make_graph\<close>\<close>


section \<open>Notions the properties are stated with\<close>

text \<open>
  The series a row of the normalized table belongs to. An existing row carries it in
  \<open>ticker_adjusted\<close>; a filled row has no such cell and carries it in \<open>Ticker\<close>
  (line 140).
\<close>

definition series_of :: "row \<Rightarrow> string option" where
  "series_of r = (case ticker_adjusted r of None \<Rightarrow> Ticker r | Some s \<Rightarrow> Some s)"



text \<open>The sort key the specification names: the symbol with its suffix, then the date.\<close>

definition by_seriesId_quarter_end :: "row \<Rightarrow> string option \<times> date" where
  "by_seriesId_quarter_end r = (adjusted r, quarter_end r)"

text \<open>What lines 89 to 116 make of one input row that has a percentage.\<close>

definition attach :: "row \<Rightarrow> row" where
  "attach r = (scale_value r)\<lparr>quarter_end := projr (get_quarter_end (Quarter r)),
                 ticker_adjusted := adjusted r\<rparr>"

text \<open>What one pass of the inner loop appends: an existing row of the ticker with the
  labels of the frame, or the dictionary of lines 138 to 149 for a quarter the ticker
  has no row at.\<close>

definition appended :: "frame \<Rightarrow> row list \<Rightarrow> string \<Rightarrow> string list \<times> row \<Rightarrow> bool" where
  "appended df tdf ticker d =
     ((fst d = columns df \<and> snd d \<in> set tdf) \<or>
      (fst d = zero_keys \<and> quarter_end (snd d) \<notin> quarter_end ` set tdf \<and>
       zero_row df tdf ticker (quarter_end (snd d)) = Inr (snd d)))"

section \<open>Sample filings\<close>

definition holding :: "string \<Rightarrow> string \<Rightarrow> string option \<Rightarrow> rat \<Rightarrow> row" where
  "holding q t ot p =
     \<lparr>Quarter = q, Date_Filed = 0, Ticker = Some t, Company_Name = t, Class = ''COM'',
      CUSIP = ''000000000'', Value = Some 5, Percentage = Some p, Shares = Some 10,
      Principal = None, Option_Type = ot, quarter_end = 0, ticker_adjusted = None\<rparr>"

text \<open>A put in the first quarter, the share itself in the second.\<close>

definition put_then_equity :: frame where
  "put_then_equity = \<lparr>columns = scrape_columns,
     rows = [holding ''Q1 2023'' ''XYZ'' (Some ''put'') 2, holding ''Q2 2023'' ''XYZ'' None 5]\<rparr>"

text \<open>A put held in the first and third quarter and not in the second.\<close>

definition option_gap :: frame where
  "option_gap = \<lparr>columns = scrape_columns,
     rows = [holding ''Q1 2023'' ''XYZ'' (Some ''put'') 2, holding ''Q2 2023'' ''AAA'' None 5,
             holding ''Q3 2023'' ''AAA'' None 4, holding ''Q3 2023'' ''XYZ'' (Some ''put'') 1]\<rparr>"

text \<open>Six positions in five symbols in one quarter, with six different percentages.\<close>

definition six_holdings :: frame where
  "six_holdings = \<lparr>columns = scrape_columns,
     rows = [holding ''Q4 2023'' ''XYZ'' None 30, holding ''Q4 2023'' ''XYZ'' (Some ''put'') 25,
             holding ''Q4 2023'' ''AAA'' None 20, holding ''Q4 2023'' ''BBB'' None 15,
             holding ''Q4 2023'' ''CCC'' None 7, holding ''Q4 2023'' ''DDD'' None 3]\<rparr>"

section \<open>Lists and primitives\<close>

lemma unique_set: "set (unique xs) = set xs"
  by (simp add: unique_def)

lemma unique_distinct: "distinct (unique xs)"
  by (simp add: unique_def)

lemma find_SomeD: "find P xs = Some x \<Longrightarrow> x \<in> set xs \<and> P x"
  by (auto simp: find_Some_iff)





lemma in_set_head: "x \<in> set (head k xs) \<Longrightarrow> x \<in> set xs"
  by (auto simp: head_def split: if_splits dest: in_set_takeD)

lemma head_zero: "head 0 xs = []"
  by (simp add: head_def)

lemma head_nil_iff: "k < 0 \<Longrightarrow> head k xs = [] \<longleftrightarrow> length xs \<le> nat (- k)"
  by (auto simp: head_def)

section \<open>The frame the loops read\<close>

lemma apply_get_quarter_end_Inr:
  assumes "apply_get_quarter_end rs = Inr rs'"
  shows "rs' = map (\<lambda>r. r\<lparr>quarter_end := projr (get_quarter_end (Quarter r))\<rparr>) rs \<and>
         (\<forall>r \<in> set rs. \<not> isl (get_quarter_end (Quarter r)))"
  using assms
  by (induction rs arbitrary: rs') (auto split: sum.splits)

lemma adjusted_scale_value [simp]: "adjusted (scale_value r) = adjusted r"
  by (simp add: adjusted_def scale_value_def split: option.splits)

lemma adjusted_quarter_end_update [simp]: "adjusted (r\<lparr>quarter_end := q\<rparr>) = adjusted r"
  by (simp add: adjusted_def split: option.splits)

lemma scale_value_fields [simp]:
  "Percentage (scale_value r) = Percentage r"
  "Quarter (scale_value r) = Quarter r"
  by (simp_all add: scale_value_def)

lemma attach_fields [simp]:
  "ticker_adjusted (attach r) = adjusted r"
  "quarter_end (attach r) = projr (get_quarter_end (Quarter r))"
  "Ticker (attach r) = Ticker r"
  "Option_Type (attach r) = Option_Type r"
  by (simp_all add: attach_def scale_value_def)

lemma preprocess_Inr:
  assumes "preprocess_filings_df df = Inr t"
  obtains df1 df4 where "assign_in_place df = Inr df1" and "prepare df1 = Inr df4"
    and "fill_gaps df4 = Inr t"
  using assms by (auto simp: preprocess_filings_df_def split: sum.splits)

lemma prepare_Inr:
  assumes "assign_in_place df = Inr df1" and "prepare df1 = Inr df4"
  shows "set (rows df4) = attach ` {r \<in> set (rows df). Percentage r \<noteq> None}"
    and "\<forall>r \<in> set (rows df). Percentage r \<noteq> None \<longrightarrow> \<not> isl (get_quarter_end (Quarter r))"
    and "columns df4 = set_column ''ticker_adjusted'' (set_column ''quarter_end''
           (map (\<lambda>c. if c = ''Value ($000)'' then ''Value'' else c) (columns df)))"
    and "''Date Filed'' \<in> set (columns df)"
proof -
  from assms(1) have df1: "df1 = df\<lparr>rows := map scale_value (rows df)\<rparr>"
    and dcol: "''Date Filed'' \<in> set (columns df)"
    by (auto simp: assign_in_place_def split: if_splits)
  show "''Date Filed'' \<in> set (columns df)" by (rule dcol)
  from assms(2) obtain df2 df3 where
    df2: "dropna_Percentage (rename_value df1) = Inr df2" and
    df3: "add_quarter_end df2 = Inr df3" and
    df4: "add_ticker_adjusted (sort_values quarter_end df3) = Inr df4"
    by (auto simp: prepare_def split: sum.splits)
  from df2 df1 have "rows df2 = filter (\<lambda>r. Percentage r \<noteq> None) (map scale_value (rows df))"
    and c2: "columns df2 = map (\<lambda>c. if c = ''Value ($000)'' then ''Value'' else c) (columns df)"
    by (auto simp: dropna_Percentage_def rename_value_def split: if_splits)
  then have r2: "rows df2 = map scale_value (filter (\<lambda>r. Percentage r \<noteq> None) (rows df))"
    by (simp add: filter_map o_def)
  from df3 obtain rs3 where a: "apply_get_quarter_end (rows df2) = Inr rs3"
    and df3': "df3 = \<lparr>columns = set_column ''quarter_end'' (columns df2), rows = rs3\<rparr>"
    by (auto simp: add_quarter_end_def split: if_splits sum.splits)
  from apply_get_quarter_end_Inr[OF a]
  have rs3: "rs3 = map (\<lambda>r. r\<lparr>quarter_end := projr (get_quarter_end (Quarter r))\<rparr>) (rows df2)"
    and ok: "\<forall>r \<in> set (rows df2). \<not> isl (get_quarter_end (Quarter r))"
    by simp_all
  from df4 df3' have r4: "rows df4 = map (\<lambda>r. r\<lparr>ticker_adjusted := adjusted r\<rparr>) (sort_key quarter_end rs3)"
    and c4: "columns df4 = set_column ''ticker_adjusted'' (set_column ''quarter_end'' (columns df2))"
    by (auto simp: add_ticker_adjusted_def sort_values_def split: if_splits)
  from c4 c2 show "columns df4 = set_column ''ticker_adjusted'' (set_column ''quarter_end''
           (map (\<lambda>c. if c = ''Value ($000)'' then ''Value'' else c) (columns df)))" by simp
  from ok show "\<forall>r \<in> set (rows df). Percentage r \<noteq> None \<longrightarrow> \<not> isl (get_quarter_end (Quarter r))"
    unfolding r2 by simp
  have "set (rows df4) = (\<lambda>r. r\<lparr>ticker_adjusted := adjusted r\<rparr>) ` set rs3"
    by (simp add: r4)
  also have "\<dots> = attach ` set (filter (\<lambda>r. Percentage r \<noteq> None) (rows df))"
    unfolding rs3 r2 by (simp add: image_image attach_def)
  finally show "set (rows df4) = attach ` {r \<in> set (rows df). Percentage r \<noteq> None}" by simp
qed


section \<open>The two loops\<close>

lemma zero_row_Inr:
  assumes "zero_row df tdf ticker q = Inr z"
  shows "Ticker z = Some ticker \<and> ticker_adjusted z = None \<and> quarter_end z = q \<and>
         Value z = Some 0 \<and> Percentage z = Some 0 \<and> Shares z = Some 0 \<and>
         (\<exists>r0 \<in> set tdf. Option_Type z = Option_Type r0 \<and> Company_Name z = Company_Name r0 \<and>
             Class z = Class r0 \<and> CUSIP z = CUSIP r0 \<and> Principal z = Principal r0)"
  using assms
  by (auto simp: zero_row_def split: option.splits list.splits if_splits)

lemma fill_quarters_Inr:
  assumes "fill_quarters df tdf ticker lo hi qs = Inr ds"
  shows "map (\<lambda>d. quarter_end (snd d)) ds = filter (\<lambda>q. lo \<le> q \<and> q \<le> hi) qs \<and>
         (\<forall>d \<in> set ds. appended df tdf ticker d)"
  using assms
proof (induction qs arbitrary: ds)
  case Nil
  then show ?case by simp
next
  case (Cons q qs)
  show ?case
  proof (cases "q < lo \<or> hi < q")
    case True
    with Cons.prems have "fill_quarters df tdf ticker lo hi qs = Inr ds" by simp
    from Cons.IH[OF this] True show ?thesis by auto
  next
    case False
    show ?thesis
    proof (cases "find (\<lambda>r. quarter_end r = q) tdf")
      case None
      with False Cons.prems obtain z ds' where
        z: "zero_row df tdf ticker q = Inr z" and
        ds': "fill_quarters df tdf ticker lo hi qs = Inr ds'" and
        ds: "ds = (zero_keys, z) # ds'"
        by (auto split: sum.splits simp: map_sum_def)
      from None have "q \<notin> quarter_end ` set tdf" by (auto simp: find_None_iff)
      moreover from z have "quarter_end z = q" using zero_row_Inr by blast
      ultimately have "appended df tdf ticker (zero_keys, z)"
        using z by (simp add: appended_def)
      with Cons.IH[OF ds'] False ds \<open>quarter_end z = q\<close> show ?thesis by auto
    next
      case (Some r)
      with False Cons.prems obtain ds' where
        ds': "fill_quarters df tdf ticker lo hi qs = Inr ds'" and
        ds: "ds = (columns df, r) # ds'"
        by (auto split: sum.splits)
      from Some have "r \<in> set tdf" "quarter_end r = q" using find_SomeD by fastforce+
      then have "appended df tdf ticker (columns df, r)" by (simp add: appended_def)
      with Cons.IH[OF ds'] False ds \<open>quarter_end r = q\<close> show ?thesis by auto
    qed
  qed
qed

lemma appended_series:
  assumes "appended df (ticker_df df s) s d"
  shows "series_of (snd d) = Some s"
  using assms zero_row_Inr[of df "ticker_df df s" s "quarter_end (snd d)" "snd d"]
  by (auto simp: appended_def series_of_def ticker_df_def)

lemma fill_ticker_series:
  assumes "fill_ticker df qs s = Inr ds" and "d \<in> set ds"
  shows "series_of (snd d) = Some s"
  using fill_quarters_Inr[OF assms(1)[unfolded fill_ticker_def]] assms(2) appended_series by blast

lemma fill_tickers_Inr:
  assumes "fill_tickers df qs ts = Inr ds" and "distinct ts"
  shows "filter (\<lambda>d. series_of (snd d) = Some s) ds =
           (if Some s \<in> set ts \<and> ticker_df df s \<noteq> [] then projr (fill_ticker df qs s) else [])
         \<and> (Some s \<in> set ts \<and> ticker_df df s \<noteq> [] \<longrightarrow> \<not> isl (fill_ticker df qs s))
         \<and> (\<forall>d \<in> set ds. \<exists>s'. series_of (snd d) = Some s')"
  using assms
proof (induction df qs ts arbitrary: ds rule: fill_tickers.induct)
  case (1 df qs)
  then show ?case by simp
next
  case (2 df qs ts)
  then show ?case by simp
next
  case (3 df qs ticker ts)
  from "3.prems"(2) have dts: "distinct ts" and nin: "Some ticker \<notin> set ts" by simp_all
  show ?case
  proof (cases "ticker_df df ticker = []")
    case True
    with "3.prems"(1) have ft: "fill_tickers df qs ts = Inr ds" by simp
    from "3.IH"(1)[OF True ft dts] True show ?thesis by auto
  next
    case False
    with "3.prems"(1) obtain b ds' where
      b: "fill_ticker df qs ticker = Inr b" and
      ft: "fill_tickers df qs ts = Inr ds'" and
      ds: "ds = b @ ds'"
      by (auto split: sum.splits)
    note ih = "3.IH"(2)[OF False b ft dts]
    have bs: "\<forall>d \<in> set b. series_of (snd d) = Some ticker"
      using fill_ticker_series[OF b] by blast
    show ?thesis
    proof (cases "s = ticker")
      case True
      with bs have "filter (\<lambda>d. series_of (snd d) = Some s) b = b" by (simp add: filter_id_conv)
      moreover from ih True nin have "filter (\<lambda>d. series_of (snd d) = Some s) ds' = []" by simp
      ultimately show ?thesis using True False b ds bs ih by auto
    next
      case ne: False
      with bs have "filter (\<lambda>d. series_of (snd d) = Some s) b = []" by (auto simp: filter_empty_conv)
      then show ?thesis using ne ds bs ih by auto
    qed
  qed
qed

lemma fill_tickers_appended:
  assumes "fill_tickers df qs ts = Inr ds" and "d \<in> set ds"
  shows "\<exists>s. ticker_df df s \<noteq> [] \<and> appended df (ticker_df df s) s d"
  using assms
proof (induction df qs ts arbitrary: ds rule: fill_tickers.induct)
  case (1 df qs)
  then show ?case by simp
next
  case (2 df qs ts)
  then show ?case by simp
next
  case (3 df qs ticker ts)
  show ?case
  proof (cases "ticker_df df ticker = []")
    case True
    with "3.prems"(1) have ft: "fill_tickers df qs ts = Inr ds" by simp
    from "3.IH"(1)[OF True ft "3.prems"(2)] show ?thesis .
  next
    case False
    with "3.prems"(1) obtain b ds' where
      b: "fill_ticker df qs ticker = Inr b" and
      ft: "fill_tickers df qs ts = Inr ds'" and
      ds: "ds = b @ ds'"
      by (auto split: sum.splits)
    from "3.prems"(2) ds consider "d \<in> set b" | "d \<in> set ds'" by auto
    then show ?thesis
    proof cases
      case 1
      with fill_quarters_Inr[OF b[unfolded fill_ticker_def]] False show ?thesis by blast
    next
      case 2
      from "3.IH"(2)[OF False b ft 2] show ?thesis .
    qed
  qed
qed

section \<open>The normalized table\<close>

lemma cells_fields [simp]:
  "series_of (cells d) = series_of (snd d)"
  "quarter_end (cells d) = quarter_end (snd d)"
  "Ticker (cells d) = Ticker (snd d)"
  "ticker_adjusted (cells d) = ticker_adjusted (snd d)"
  "Option_Type (cells d) = Option_Type (snd d)"
  "Value (cells d) = Value (snd d)"
  "Percentage (cells d) = Percentage (snd d)"
  "by_Ticker_quarter_end (cells d) = by_Ticker_quarter_end (snd d)"
  by (simp_all add: cells_def series_of_def by_Ticker_quarter_end_def split: option.splits)

lemma cells_zero_keys: "fst d = zero_keys \<Longrightarrow> cells d = snd d"
  by (simp add: cells_def zero_keys_def)

lemma fill_gaps_Inr:
  assumes "fill_gaps df = Inr t"
  obtains ds where "fill_tickers df (all_quarters df) (unique (map ticker_adjusted (rows df))) = Inr ds"
    and "ds \<noteq> []"
    and "columns t = unique (concat (map fst ds))"
    and "rows t = sort_key by_Ticker_quarter_end (map cells ds)"
proof -
  from assms obtain ds where
    ds: "fill_tickers df (all_quarters df) (unique (map ticker_adjusted (rows df))) = Inr ds"
    and s: "sort_rows (DataFrame ds) = Inr t"
    by (auto simp: fill_gaps_def split: sum.splits)
  from s have t: "t = sort_values by_Ticker_quarter_end (DataFrame ds)"
    and c: "''Ticker'' \<in> set (columns (DataFrame ds))"
    by (auto simp: sort_rows_def split: if_splits)
  from c have "ds \<noteq> []" by (auto simp: DataFrame_def unique_def)
  moreover from t have "columns t = unique (concat (map fst ds))"
    "rows t = sort_key by_Ticker_quarter_end (map cells ds)"
    by (simp_all add: sort_values_def DataFrame_def)
  ultimately show thesis using ds that by blast
qed

lemma ticker_in_unique:
  "Some s \<in> set (unique (map ticker_adjusted (rows df))) \<longleftrightarrow> ticker_df df s \<noteq> []"
  by (force simp: unique_set ticker_df_def filter_empty_conv image_iff)


lemma fill_gaps_series:
  assumes "fill_gaps df = Inr t"
  shows "filter (\<lambda>r. series_of r = Some s) (rows t) =
           sort_key by_Ticker_quarter_end
             (map cells (if ticker_df df s \<noteq> [] then projr (fill_ticker df (all_quarters df) s) else []))"
    and "ticker_df df s \<noteq> [] \<Longrightarrow> \<not> isl (fill_ticker df (all_quarters df) s)"
    and "\<forall>r \<in> set (rows t). \<exists>s'. series_of r = Some s'"
proof -
  from assms obtain ds where
    ds: "fill_tickers df (all_quarters df) (unique (map ticker_adjusted (rows df))) = Inr ds"
    and r: "rows t = sort_key by_Ticker_quarter_end (map cells ds)"
    by (rule fill_gaps_Inr)
  note ft = fill_tickers_Inr[OF ds unique_distinct, of s, unfolded ticker_in_unique]
  have "filter (\<lambda>r. series_of r = Some s) (rows t) =
          sort_key by_Ticker_quarter_end (map cells (filter (\<lambda>d. series_of (snd d) = Some s) ds))"
    unfolding r by (simp add: filter_sort filter_map o_def)
  with ft show "filter (\<lambda>r. series_of r = Some s) (rows t) =
           sort_key by_Ticker_quarter_end
             (map cells (if ticker_df df s \<noteq> [] then projr (fill_ticker df (all_quarters df) s) else []))"
    by simp
  from ft show "ticker_df df s \<noteq> [] \<Longrightarrow> \<not> isl (fill_ticker df (all_quarters df) s)" by simp
  from ft show "\<forall>r \<in> set (rows t). \<exists>s'. series_of r = Some s'"
    unfolding r by auto
qed



lemma fill_gaps_appended:
  assumes "fill_gaps df = Inr t"
  obtains ds where "ds \<noteq> []"
    and "columns t = unique (concat (map fst ds))"
    and "set (rows t) = cells ` set ds"
    and "\<forall>d \<in> set ds. \<exists>s. ticker_df df s \<noteq> [] \<and> appended df (ticker_df df s) s d"
proof -
  from assms obtain ds where
    ds: "fill_tickers df (all_quarters df) (unique (map ticker_adjusted (rows df))) = Inr ds"
    and ne: "ds \<noteq> []"
    and c: "columns t = unique (concat (map fst ds))"
    and r: "rows t = sort_key by_Ticker_quarter_end (map cells ds)"
    by (rule fill_gaps_Inr)
  have "\<forall>d \<in> set ds. \<exists>s. ticker_df df s \<noteq> [] \<and> appended df (ticker_df df s) s d"
    using fill_tickers_appended[OF ds] by blast
  moreover from r have "set (rows t) = cells ` set ds" by simp
  ultimately show thesis using ne c that by blast
qed

lemma fill_gaps_columns:
  assumes "fill_gaps df = Inr t" and "c \<in> set (columns df)" and "c \<in> set zero_keys"
    and "c' \<notin> set (columns df)" and "c' \<notin> set zero_keys"
  shows "c \<in> set (columns t) \<and> c' \<notin> set (columns t)"
proof -
  from assms(1) obtain ds where ne: "ds \<noteq> []"
    and c: "columns t = unique (concat (map fst ds))"
    and ap: "\<forall>d \<in> set ds. \<exists>s. ticker_df df s \<noteq> [] \<and> appended df (ticker_df df s) s d"
    by (rule fill_gaps_appended)
  have keys: "fst d = columns df \<or> fst d = zero_keys" if "d \<in> set ds" for d
    using ap that unfolding appended_def by blast
  from ne obtain d where d: "d \<in> set ds" by (cases ds) auto
  from keys[OF d] assms(2,3) have "c \<in> set (fst d)" by auto
  with d have "c \<in> set (columns t)" unfolding c unique_set by auto
  moreover have "c' \<notin> set (columns t)"
  proof
    assume "c' \<in> set (columns t)"
    then obtain d' where "d' \<in> set ds" "c' \<in> set (fst d')" unfolding c unique_set by auto
    with keys[of d'] assms(4,5) show False by auto
  qed
  ultimately show ?thesis by simp
qed

lemma normalized_row:
  assumes "preprocess_filings_df df = Inr t" and "r \<in> set (rows t)"
  shows "\<exists>r0 \<in> set (rows df). Percentage r0 \<noteq> None \<and> series_of r = adjusted r0 \<and>
           Option_Type r = Option_Type r0 \<and>
           (if ticker_adjusted r = None
            then Ticker r = adjusted r0 \<and> Value r = Some 0 \<and> Percentage r = Some 0 \<and> Shares r = Some 0
            else Ticker r = Ticker r0)"
proof -
  from assms(1) obtain df1 df4 where a: "assign_in_place df = Inr df1"
    and p: "prepare df1 = Inr df4" and f: "fill_gaps df4 = Inr t"
    by (rule preprocess_Inr)
  note r4 = prepare_Inr(1)[OF a p]
  from f obtain ds where rs: "set (rows t) = cells ` set ds"
    and ap: "\<forall>d \<in> set ds. \<exists>s. ticker_df df4 s \<noteq> [] \<and> appended df4 (ticker_df df4 s) s d"
    by (rule fill_gaps_appended)
  from assms(2) rs obtain d where d: "d \<in> set ds" and rd: "r = cells d" by auto
  with ap obtain s where "appended df4 (ticker_df df4 s) s d" by blast
  then consider "snd d \<in> set (ticker_df df4 s)"
    | "fst d = zero_keys" "zero_row df4 (ticker_df df4 s) s (quarter_end (snd d)) = Inr (snd d)"
    unfolding appended_def by blast
  then show ?thesis
  proof cases
    case 1
    then have "snd d \<in> set (rows df4)" and ta: "ticker_adjusted (snd d) = Some s"
      by (simp_all add: ticker_df_def)
    with r4 obtain r0 where r0: "r0 \<in> set (rows df)" "Percentage r0 \<noteq> None" "snd d = attach r0" by auto
    with ta show ?thesis unfolding rd by (auto simp: series_of_def)
  next
    case 2
    from 2(1) have rs: "r = snd d" unfolding rd by (rule cells_zero_keys)
    from zero_row_Inr[OF 2(2)] obtain r1 where z: "Ticker r = Some s" "ticker_adjusted r = None"
      "Value r = Some 0" "Percentage r = Some 0" "Shares r = Some 0"
      and r1: "r1 \<in> set (ticker_df df4 s)" "Option_Type r = Option_Type r1"
      unfolding rs by blast
    from r1(1) have "r1 \<in> set (rows df4)" and ta: "ticker_adjusted r1 = Some s" by (simp_all add: ticker_df_def)
    with r4 obtain r0 where r0: "r0 \<in> set (rows df)" "Percentage r0 \<noteq> None" "r1 = attach r0" by auto
    with ta z r1(2) show ?thesis by (auto simp: series_of_def)
  qed
qed

section \<open>The selector\<close>

lemma in_at_end_date: "r \<in> set (at_end_date rs) \<Longrightarrow> r \<in> set rs"
  by (simp add: at_end_date_def split: if_splits)

lemma at_end_date_sort_key: "at_end_date (sort_key f rs) = sort_key f (at_end_date rs)"
proof (cases "rs = []")
  case True
  then show ?thesis by (simp add: at_end_date_def)
next
  case False
  then have "sort_key f rs \<noteq> []" by (metis length_sort length_0_conv)
  with False show ?thesis by (simp add: at_end_date_def filter_sort)
qed

lemma top_holdings_zero: "top_holdings rs 0 = []"
  by (simp add: top_holdings_def head_zero unique_def)

lemma top_k_symbols:
  assumes "''quarter_end'' \<in> set (columns df)" and "''Percentage'' \<in> set (columns df)"
    and "''Ticker'' \<in> set (columns df)"
  obtains u where "filter_top_k_holdings df k = Inr u"
    and "rows u = filter (\<lambda>r. Ticker r \<in> set (top_holdings (sort_key quarter_end (rows df)) k))
                    (sort_key quarter_end (rows df))"
    and "Ticker ` set (rows u) = set (top_holdings (sort_key quarter_end (rows df)) k)"
proof -
  define S where "S = sort_key quarter_end (rows df)"
  define u where "u = df\<lparr>rows := filter (\<lambda>r. Ticker r \<in> set (top_holdings S k)) S\<rparr>"
  have res: "filter_top_k_holdings df k = Inr u"
    using assms by (simp add: filter_top_k_holdings_def S_def u_def Let_def)
  have ru: "rows u = filter (\<lambda>r. Ticker r \<in> set (top_holdings S k)) S" by (simp add: u_def)
  have "Ticker ` set (rows u) = set (top_holdings S k)"
  proof
    show "Ticker ` set (rows u) \<subseteq> set (top_holdings S k)" unfolding ru by auto
    show "set (top_holdings S k) \<subseteq> Ticker ` set (rows u)"
    proof
      fix t assume t: "t \<in> set (top_holdings S k)"
      then obtain r where r: "r \<in> set (head k (sort_key by_Percentage_descending (at_end_date S)))"
        and tr: "Ticker r = t"
        unfolding top_holdings_def unique_set by auto
      from r have "r \<in> set (sort_key by_Percentage_descending (at_end_date S))" by (rule in_set_head)
      then have "r \<in> set (at_end_date S)" by simp
      then have "r \<in> set S" by (rule in_at_end_date)
      with t tr have "r \<in> set (rows u)" unfolding ru by simp
      with tr show "t \<in> Ticker ` set (rows u)" by blast
    qed
  qed
  with res ru show thesis using that unfolding S_def by blast
qed

section \<open>Gap filling\<close>





text \<open>
  C10. In the normalized table a filled row carries the adjusted ticker, the symbol with
  its \<open>(put)\<close> or \<open>(call)\<close> suffix, in the cell \<open>Ticker\<close>, while an existing row keeps the
  raw symbol there; both copy the option type of an input row of their series. So for
  some inputs the rows of one series do not share one symbol: the put of the sample is
  \<open>XYZ\<close> in its existing rows and \<open>XYZ (put)\<close> in its filled row.
\<close>

theorem filled_rows_carry_series:
  "(preprocess_filings_df df = Inr t \<and> r \<in> set (rows t) \<longrightarrow>
      (\<exists>r0 \<in> set (rows df). Percentage r0 \<noteq> None \<and> series_of r = adjusted r0 \<and>
           Option_Type r = Option_Type r0 \<and>
           (if ticker_adjusted r = None
            then Ticker r = adjusted r0 \<and> Value r = Some 0 \<and> Percentage r = Some 0 \<and> Shares r = Some 0
            else Ticker r = Ticker r0))) \<and>
   (\<exists>df' t' a b. preprocess_filings_df df' = Inr t' \<and> a \<in> set (rows t') \<and> b \<in> set (rows t') \<and>
        series_of a = series_of b \<and> Ticker a \<noteq> Ticker b)"
proof -
  have 1: "preprocess_filings_df option_gap = Inr (projr (preprocess_filings_df option_gap))"
    by code_simp
  have 2: "rows (projr (preprocess_filings_df option_gap)) ! 3
             \<in> set (rows (projr (preprocess_filings_df option_gap)))"
    by code_simp
  have 3: "last (rows (projr (preprocess_filings_df option_gap)))
             \<in> set (rows (projr (preprocess_filings_df option_gap)))"
    by code_simp
  have 4: "series_of (rows (projr (preprocess_filings_df option_gap)) ! 3) =
           series_of (last (rows (projr (preprocess_filings_df option_gap))))"
    by code_simp
  have 5: "Ticker (rows (projr (preprocess_filings_df option_gap)) ! 3) \<noteq>
           Ticker (last (rows (projr (preprocess_filings_df option_gap))))"
    by code_simp
  from 1 2 3 4 5 have "\<exists>df' t' a b. preprocess_filings_df df' = Inr t' \<and> a \<in> set (rows t') \<and>
        b \<in> set (rows t') \<and> series_of a = series_of b \<and> Ticker a \<noteq> Ticker b"
    by blast
  then show ?thesis using normalized_row[of df t r] by blast
qed

theorem filled_rows_carry_series_witness:
  "\<exists>r0 \<in> set (rows option_gap). Percentage r0 \<noteq> None \<and>
      series_of (last (rows (projr (preprocess_filings_df option_gap)))) = adjusted r0 \<and>
      Option_Type (last (rows (projr (preprocess_filings_df option_gap)))) = Option_Type r0 \<and>
      Ticker (last (rows (projr (preprocess_filings_df option_gap)))) = adjusted r0 \<and>
      Value (last (rows (projr (preprocess_filings_df option_gap)))) = Some 0 \<and>
      Percentage (last (rows (projr (preprocess_filings_df option_gap)))) = Some 0 \<and>
      Shares (last (rows (projr (preprocess_filings_df option_gap)))) = Some 0"
proof -
  have 1: "preprocess_filings_df option_gap = Inr (projr (preprocess_filings_df option_gap))"
    by code_simp
  have 2: "last (rows (projr (preprocess_filings_df option_gap)))
             \<in> set (rows (projr (preprocess_filings_df option_gap)))"
    by code_simp
  have 3: "ticker_adjusted (last (rows (projr (preprocess_filings_df option_gap)))) = None"
    by code_simp
  from filled_rows_carry_series[of option_gap "projr (preprocess_filings_df option_gap)"
      "last (rows (projr (preprocess_filings_df option_gap)))"] 1 2 3
  show ?thesis by auto
qed

section \<open>Running the normalizer again\<close>

text \<open>
  C2. The claim says that normalizing the rows of a normalized table gives the same
  table. The sample shows that it does not.
\<close>

theorem rerun_counterexample:
  "\<not> isl (preprocess_filings_df put_then_equity) \<and>
   preprocess_filings_df (projr (preprocess_filings_df put_then_equity))
     \<noteq> preprocess_filings_df put_then_equity"
  by code_simp

text \<open>
  C2, as amended. The normalizer cannot be run on its own result: line 90 renamed the
  column \<open>Value ($000)\<close> to \<open>Value\<close>, so on every normalized table line 89 fails with
  \<open>KeyError: 'Value ($000)'\<close>.
\<close>

theorem rerun_KeyError:
  assumes "preprocess_filings_df df = Inr t"
  shows "preprocess_filings_df t = Inl (KeyError ''Value ($000)'')"
proof -
  from assms obtain df1 df4 where a: "assign_in_place df = Inr df1"
    and p: "prepare df1 = Inr df4" and f: "fill_gaps df4 = Inr t"
    by (rule preprocess_Inr)
  note c4 = prepare_Inr(3)[OF a p] and dcol = prepare_Inr(4)[OF a p]
  from dcol have "''Date Filed'' \<in> set (columns df4)"
    unfolding c4 by (auto simp: set_column_def image_iff)
  moreover have "''Value ($000)'' \<notin> set (columns df4)"
    unfolding c4 by (auto simp: set_column_def)
  ultimately have "''Date Filed'' \<in> set (columns t) \<and> ''Value ($000)'' \<notin> set (columns t)"
    by (intro fill_gaps_columns[OF f]) (simp_all add: zero_keys_def)
  then show ?thesis
    by (simp add: preprocess_filings_df_def assign_in_place_def)
qed

theorem rerun_KeyError_witness:
  "preprocess_filings_df (projr (preprocess_filings_df option_gap)) = Inl (KeyError ''Value ($000)'')"
proof -
  have 1: "preprocess_filings_df option_gap = Inr (projr (preprocess_filings_df option_gap))"
    by code_simp
  show ?thesis by (rule rerun_KeyError[OF 1])
qed

section \<open>The order of the normalized table\<close>

text \<open>
  C3. The claim says that the normalized table is sorted by the symbol with its suffix
  and then by the date. The table of the sample is not: the put of the first quarter
  comes before the share of the second.
\<close>

theorem sorted_by_seriesId_counterexample:
  "\<not> isl (preprocess_filings_df put_then_equity) \<and>
   \<not> sorted (map by_seriesId_quarter_end (rows (projr (preprocess_filings_df put_then_equity))))"
  by code_simp

text \<open>
  C3, as amended. The normalized table is sorted ascending by the cell \<open>Ticker\<close> and then
  by the date, and no \<open>Ticker\<close> is null; \<open>Ticker\<close> is the raw symbol in an existing row
  and the adjusted ticker in a filled row.
\<close>

theorem sorted_by_Ticker:
  assumes "preprocess_filings_df df = Inr t"
  shows "sorted (map by_Ticker_quarter_end (rows t)) \<and> None \<notin> set (map Ticker (rows t))"
proof -
  from assms obtain df1 df4 where a: "assign_in_place df = Inr df1"
    and p: "prepare df1 = Inr df4" and f: "fill_gaps df4 = Inr t"
    by (rule preprocess_Inr)
  obtain ds0 :: "(string list \<times> row) list" where
    r: "rows t = sort_key by_Ticker_quarter_end (map cells ds0)"
    by (rule fill_gaps_Inr[OF f]) blast
  have s: "sorted (map by_Ticker_quarter_end (rows t))"
    unfolding r by simp
  have "Ticker r \<noteq> None" if "r \<in> set (rows t)" for r
  proof -
    from fill_gaps_series(3)[OF f] that obtain s' where s': "series_of r = Some s'" by blast
    from normalized_row[OF assms that] obtain r0 where
      r0: "series_of r = adjusted r0" "ticker_adjusted r \<noteq> None \<longrightarrow> Ticker r = Ticker r0"
      by (auto split: if_splits)
    show ?thesis
    proof (cases "ticker_adjusted r")
      case None
      with s' show ?thesis by (simp add: series_of_def)
    next
      case (Some a)
      with r0 s' have "adjusted r0 = Some s'" "Ticker r = Ticker r0" by simp_all
      then show ?thesis by (auto simp: adjusted_def split: option.splits)
    qed
  qed
  then have "None \<notin> set (map Ticker (rows t))" by fastforce
  with s show ?thesis by simp
qed

theorem sorted_by_Ticker_witness:
  "sorted (map by_Ticker_quarter_end (rows (projr (preprocess_filings_df put_then_equity)))) \<and>
   None \<notin> set (map Ticker (rows (projr (preprocess_filings_df put_then_equity))))"
proof -
  have 1: "preprocess_filings_df put_then_equity = Inr (projr (preprocess_filings_df put_then_equity))"
    by code_simp
  show ?thesis by (rule sorted_by_Ticker[OF 1])
qed

section \<open>Empty input\<close>

text \<open>
  C4. The claim says that the normalizer returns an empty table for an empty input. On
  the empty frame with the columns of \<open>scrape_filings\<close> no dictionary is appended, the new
  frame of line 154 has no column, and the sort of line 157 fails with
  \<open>KeyError: 'Ticker'\<close>.
\<close>

theorem preprocess_empty_KeyError:
  "preprocess_filings_df \<lparr>columns = scrape_columns, rows = []\<rparr> = Inl (KeyError ''Ticker'')"
  by code_simp

section \<open>The selector and the window\<close>

text \<open>
  C5. The claim says that a negative \<open>k\<close> selects nothing. On the normalized sample of
  six positions \<open>k = -1\<close> selects rows.
\<close>

theorem top_k_negative_counterexample:
  "\<not> isl (preprocess_filings_df six_holdings) \<and>
   \<not> isl (filter_top_k_holdings (projr (preprocess_filings_df six_holdings)) (- 1)) \<and>
   rows (projr (filter_top_k_holdings (projr (preprocess_filings_df six_holdings)) (- 1))) \<noteq> []"
  by code_simp

text \<open>
  C5, as amended. On a table that has the columns the selector reads, \<open>k = 0\<close> selects
  nothing and is no error. A negative \<open>k\<close> is no error either, and is not read as zero:
  \<open>head\<close> drops the last \<open>-k\<close> of the ranked rows at the maximum date, so nothing is
  selected exactly when at most \<open>-k\<close> rows are at that date.
\<close>

theorem top_k_nonpositive:
  assumes "''quarter_end'' \<in> set (columns df)" and "''Percentage'' \<in> set (columns df)"
    and "''Ticker'' \<in> set (columns df)"
  shows "filter_top_k_holdings df 0 = Inr (df\<lparr>rows := []\<rparr>) \<and>
         (k < 0 \<longrightarrow> (\<exists>t. filter_top_k_holdings df k = Inr t \<and>
            (rows t = [] \<longleftrightarrow> length (at_end_date (rows df)) \<le> nat (- k))))"
proof -
  have zero: "filter_top_k_holdings df 0 = Inr (df\<lparr>rows := []\<rparr>)"
    using assms by (simp add: filter_top_k_holdings_def top_holdings_zero)
  have neg: "\<exists>t. filter_top_k_holdings df k = Inr t \<and>
           (rows t = [] \<longleftrightarrow> length (at_end_date (rows df)) \<le> nat (- k))" if k: "k < 0"
  proof -
    define E where "E = sort_key by_Percentage_descending (at_end_date (sort_key quarter_end (rows df)))"
    from assms obtain u where res: "filter_top_k_holdings df k = Inr u"
      and sym: "Ticker ` set (rows u) = set (top_holdings (sort_key quarter_end (rows df)) k)"
      by (rule top_k_symbols)
    have len: "length E = length (at_end_date (rows df))"
      by (simp add: E_def at_end_date_sort_key)
    have "rows u = [] \<longleftrightarrow> Ticker ` set (rows u) = {}" by simp
    also have "\<dots> \<longleftrightarrow> head k E = []"
      unfolding sym top_holdings_def unique_set E_def by simp
    also have "\<dots> \<longleftrightarrow> length (at_end_date (rows df)) \<le> nat (- k)"
      using head_nil_iff[OF k, of E] len by simp
    finally show ?thesis using res by blast
  qed
  from zero neg show ?thesis by blast
qed

theorem top_k_nonpositive_witness:
  "filter_top_k_holdings (projr (preprocess_filings_df six_holdings)) 0
     = Inr ((projr (preprocess_filings_df six_holdings))\<lparr>rows := []\<rparr>) \<and>
   (\<exists>t. filter_top_k_holdings (projr (preprocess_filings_df six_holdings)) (- 7) = Inr t \<and>
        (rows t = [] \<longleftrightarrow>
           length (at_end_date (rows (projr (preprocess_filings_df six_holdings)))) \<le> nat (- (- 7))))"
proof -
  have 1: "''quarter_end'' \<in> set (columns (projr (preprocess_filings_df six_holdings)))"
    by code_simp
  have 2: "''Percentage'' \<in> set (columns (projr (preprocess_filings_df six_holdings)))"
    by code_simp
  have 3: "''Ticker'' \<in> set (columns (projr (preprocess_filings_df six_holdings)))"
    by code_simp
  from top_k_nonpositive[OF 1 2 3, of "- 7"] show ?thesis by simp
qed

text \<open>
  C6. The claim says that a window chosen by the caller with its start after its end
  fails. On the normalized sample such a window is no error: the filter returns the table
  with no rows.
\<close>

theorem inverted_window_counterexample:
  "\<not> isl (preprocess_filings_df put_then_equity) \<and>
   datetime 2023 3 31 < datetime 2023 6 30 \<and>
   filter_date_range (projr (preprocess_filings_df put_then_equity)) ''Custom''
       (datetime 2023 6 30, datetime 2023 3 31)
     = Inr ((projr (preprocess_filings_df put_then_equity))\<lparr>rows := []\<rparr>)"
  by code_simp

text \<open>
  C6, as amended. On a table that has the column \<open>quarter_end\<close>, a window chosen by the
  caller with its start after its end is no error: the filter returns the table with no
  rows.
\<close>

theorem inverted_window_empty:
  assumes "''quarter_end'' \<in> set (columns df)"
    and "date_range \<notin> {''1Y'', ''3Y'', ''5Y'', ''Max''}"
    and "end_date < start_date"
  shows "filter_date_range df date_range (start_date, end_date) = Inr (df\<lparr>rows := []\<rparr>)"
proof -
  have "window (map quarter_end (rows df)) date_range (start_date, end_date) = Some (start_date, end_date)"
    using assms(2) by (simp add: window_def)
  moreover have "\<not> in_window (Some (start_date, end_date)) q" for q
    using assms(3) by (simp add: in_window_def)
  ultimately show ?thesis using assms(1) by (simp add: filter_date_range_def)
qed

theorem inverted_window_empty_witness:
  "filter_date_range (projr (preprocess_filings_df option_gap)) ''Custom''
       (datetime 2024 1 1, datetime 2023 1 1)
     = Inr ((projr (preprocess_filings_df option_gap))\<lparr>rows := []\<rparr>)"
proof -
  have 1: "''quarter_end'' \<in> set (columns (projr (preprocess_filings_df option_gap)))"
    by code_simp
  have 2: "''Custom'' \<notin> {''1Y'', ''3Y'', ''5Y'', ''Max''}"
    by simp
  have 3: "datetime 2023 1 1 < datetime 2024 1 1"
    by code_simp
  show ?thesis by (rule inverted_window_empty[OF 1 2 3])
qed




section \<open>The frame of the caller\<close>




end
